theory Spec2Isabelle
  imports Main
begin

unbundle bit_operations_syntax

section \<open>Strings\<close>

text \<open>
  A Go string is modelled as the sequence of its Unicode code points (runes), which is
  what \<^verbatim>\<open>strings.TrimFunc\<close> and its siblings iterate over; for valid UTF-8 the byte
  string and the rune sequence determine each other, and splitting at the one-byte
  rune \<^verbatim>\<open>"\n"\<close> is the same on both.
\<close>

type_synonym rune = nat
type_synonym gostring = "rune list"

definition runes :: "string \<Rightarrow> gostring" where
  "runes s = map of_char s"

definition nl :: rune where
  "nl = 10"

definition sp :: rune where
  "sp = 32"

text \<open>\<^verbatim>\<open>unicode.IsSpace\<close>: the Latin-1 cases, then the White_Space table above Latin-1.\<close>

definition IsSpace :: "rune \<Rightarrow> bool" where
  "IsSpace r =
     (if r \<le> 255 then r = 9 \<or> r = 10 \<or> r = 11 \<or> r = 12 \<or> r = 13 \<or> r = 32 \<or> r = 133 \<or> r = 160
      else r = 5760 \<or> (8192 \<le> r \<and> r \<le> 8202) \<or> r = 8232 \<or> r = 8233 \<or> r = 8239
           \<or> r = 8287 \<or> r = 12288)"

text \<open>\<^verbatim>\<open>strings.Split(s, sep)\<close> for a separator of one rune: never an empty result.\<close>

fun strings_Split :: "gostring \<Rightarrow> rune \<Rightarrow> gostring list" where
  "strings_Split [] sep = [[]]"
| "strings_Split (c # cs) sep =
     (if c = sep then [] # strings_Split cs sep
      else (case strings_Split cs sep of
              [] \<Rightarrow> [[c]]
            | l # ls \<Rightarrow> (c # l) # ls))"

fun strings_Join :: "gostring list \<Rightarrow> gostring \<Rightarrow> gostring" where
  "strings_Join [] sep = []"
| "strings_Join [l] sep = l"
| "strings_Join (l # m # ls) sep = l @ sep @ strings_Join (m # ls) sep"

definition TrimLeftFunc :: "gostring \<Rightarrow> (rune \<Rightarrow> bool) \<Rightarrow> gostring" where
  "TrimLeftFunc s f = dropWhile f s"

definition TrimRightFunc :: "gostring \<Rightarrow> (rune \<Rightarrow> bool) \<Rightarrow> gostring" where
  "TrimRightFunc s f = rev (dropWhile f (rev s))"

definition TrimFunc :: "gostring \<Rightarrow> (rune \<Rightarrow> bool) \<Rightarrow> gostring" where
  "TrimFunc s f = TrimRightFunc (TrimLeftFunc s f) f"

text \<open>
  The loop body of \<^verbatim>\<open>removeLineBreak\<close>: the switch on the index \<open>i\<close> of the line,
  \<open>n\<close> being \<^verbatim>\<open>len(lines)\<close>.
\<close>

definition trimLine :: "nat \<Rightarrow> nat \<Rightarrow> gostring \<Rightarrow> gostring" where
  "trimLine n i l =
     (if i = 0 then TrimRightFunc l IsSpace
      else if i = n - 1 then TrimLeftFunc l IsSpace
      else TrimFunc l IsSpace)"

definition removeLineBreak :: "gostring \<Rightarrow> gostring" where
  "removeLineBreak text =
     (let lines = strings_Split text nl in
      if length lines \<le> 1 then text
      else strings_Join (map (\<lambda>(i, l). trimLine (length lines) i l) (enumerate 0 lines)) [sp])"

text \<open>
  The collapse as the specification words it: leading whitespace stripped from the
  first fragment, trailing whitespace from the last, both sides from the interior ones.
\<close>

definition collapse_as_specified :: "gostring \<Rightarrow> gostring list \<Rightarrow> gostring \<Rightarrow> gostring" where
  "collapse_as_specified first mid last' =
     strings_Join (TrimLeftFunc first IsSpace # map (\<lambda>l. TrimFunc l IsSpace) mid
                   @ [TrimRightFunc last' IsSpace]) [sp]"

section \<open>Document tree\<close>

text \<open>
  The tree is the parser's (\<^verbatim>\<open>gomarkdown/ast\<close>): a node is a leaf carrying a
  literal or a container carrying children. Only the attributes \<^verbatim>\<open>RenderNode\<close> reads are
  kept: \<^verbatim>\<open>ListItem.ListFlags\<close>, \<^verbatim>\<open>Heading.Level\<close>, \<^verbatim>\<open>Link.Destination\<close> and
  \<^verbatim>\<open>Link.Title\<close>, \<^verbatim>\<open>Image.Destination\<close>, \<^verbatim>\<open>TableCell.Align\<close> and
  \<^verbatim>\<open>TableCell.IsHeader\<close>. \<open>OtherLeaf\<close> and \<open>OtherContainer\<close> stand for the node
  types the type switch does not list.
\<close>

datatype leafKind =
  Text | Code | HTMLSpan | HTMLBlock | CodeBlock | HorizontalRule | Softbreak | Hardbreak
  | OtherLeaf

datatype containerKind =
  Document | BlockQuote | List | ListItem int | Paragraph | Heading int
  | Emph | Strong | Del | Link gostring gostring | Image gostring
  | Table | TableCell int bool | TableHeader | TableBody | TableFooter | TableRow
  | OtherContainer

datatype node = Leaf leafKind gostring | Container containerKind "node list"

text \<open>
  What \<^verbatim>\<open>RenderNode\<close> learns of a node's surroundings through \<^verbatim>\<open>GetParent\<close>,
  \<^verbatim>\<open>GetChildren\<close> of the parent and \<^verbatim>\<open>ast.GetNextNode\<close>: the chain of containers from the
  parent up to the root (empty for a node without parent), the number of siblings before
  the node, and the next sibling.
\<close>

record nodeCtx =
  parents :: "containerKind list"
  position :: nat
  nextNode :: "node option"

datatype WalkStatus = GoToNext | SkipChildren

datatype panic =
  NilDereference | NegativeRepeatCount | SliceBoundsOutOfRange | IndexOutOfRange
  | UnknownNodeType | BadMarkdownDocument

text \<open>\<^verbatim>\<open>ast.ListType\<close> and \<^verbatim>\<open>ast.CellAlignFlags\<close> bit flags.\<close>

definition ListTypeOrdered :: int where "ListTypeOrdered = 1"
definition ListTypeDefinition :: int where "ListTypeDefinition = 2"
definition ListTypeTerm :: int where "ListTypeTerm = 4"

definition TableAlignmentLeft :: int where "TableAlignmentLeft = 1"
definition TableAlignmentRight :: int where "TableAlignmentRight = 2"
definition TableAlignmentCenter :: int where "TableAlignmentCenter = 3"

section \<open>Collaborators\<close>

text \<open>
  The text library (\<^verbatim>\<open>go-term-text\<close>), the colour helpers and constants, the shade
  palettes and the table renderer are not part of \<^verbatim>\<open>renderer.go\<close>; the renderer is
  modelled over any implementation of them. \<^verbatim>\<open>text.EscapeState\<close> is a struct of which the
  renderer touches the field \<open>Bold\<close> only; \<open>others\<close> holds the remaining fields.
\<close>

record 'e EscapeState =
  Bold :: bool
  others :: 'e

record 'e textlib =
  WrapWithPad :: "gostring \<Rightarrow> int \<Rightarrow> gostring \<Rightarrow> gostring"
  WrapWithPadIndent :: "gostring \<Rightarrow> int \<Rightarrow> gostring \<Rightarrow> gostring \<Rightarrow> gostring"
  Len :: "gostring \<Rightarrow> nat"
  zeroOthers :: 'e
  Witness :: "'e EscapeState \<Rightarrow> gostring \<Rightarrow> 'e EscapeState"
  FormatString :: "'e EscapeState \<Rightarrow> gostring"

type_synonym shadeFmt = "gostring \<Rightarrow> gostring"
type_synonym levelShadeFmt = "int \<Rightarrow> shadeFmt"

record styles =
  Green :: shadeFmt
  GreenBold :: shadeFmt
  Blue :: shadeFmt
  BlueBgItalic :: shadeFmt
  Red :: shadeFmt
  greenOn :: gostring
  colorOff :: gostring
  italicOn :: gostring
  italicOff :: gostring
  boldOn :: gostring
  resetAll :: gostring
  crossedOutOn :: gostring
  crossedOutOff :: gostring
  shade :: "shadeFmt list \<Rightarrow> levelShadeFmt"
  defaultHeadingShades :: "shadeFmt list"
  defaultQuoteShades :: "shadeFmt list"

datatype CellAlign = CellAlignLeft | CellAlignRight | CellAlignCenter | CellAlignCopyHeader

text \<open>
  The table renderer's methods update the table in place and \<^verbatim>\<open>Render\<close> writes to the
  sink; here each returns the updated table, and \<open>tableRender\<close> the text written.
\<close>

record 't tablelib =
  newTableRenderer :: 't
  AddHeaderCell :: "'t \<Rightarrow> gostring \<Rightarrow> CellAlign \<Rightarrow> 't"
  AddBodyCell :: "'t \<Rightarrow> gostring \<Rightarrow> CellAlign \<Rightarrow> 't"
  NextBodyRow :: "'t \<Rightarrow> 't"
  tableRender :: "'t \<Rightarrow> int \<Rightarrow> int \<Rightarrow> gostring"

record ('t, 'e) deps =
  textLib :: "'e textlib"
  styleLib :: styles
  tableLib :: "'t tablelib"

section \<open>Heading numbering\<close>

text \<open>\<^verbatim>\<open>strconv.Itoa\<close> and the \<^verbatim>\<open>%d\<close> verb: decimal digits, a minus sign below zero.\<close>

fun digitsOf :: "nat \<Rightarrow> gostring" where
  "digitsOf n = (if n < 10 then [48 + n] else digitsOf (n div 10) @ [48 + n mod 10])"

declare digitsOf.simps [simp del]

definition Itoa :: "int \<Rightarrow> gostring" where
  "Itoa i = (if i < 0 then 45 # digitsOf (nat (- i)) else digitsOf (nat i))"

text \<open>
  Modelled from the spec: the type \<^verbatim>\<open>headingNumbering\<close> with its methods \<^verbatim>\<open>Observe\<close> and
  \<^verbatim>\<open>Render\<close>, which \<^verbatim>\<open>renderHeading\<close> calls, is missing from the source files. The
  specification gives six counters, one per heading level 1..6, all zero initially;
  \<^verbatim>\<open>observe(level)\<close> increments the counter of the level and zeroes the deeper ones;
  \<^verbatim>\<open>render()\<close> formats all nonzero leading counters joined by a dot. The counters that
  are nonzero are formatted, in order, which is the reading under which the
  specification's own example sequence holds. A level outside 1..6 has no counter.
\<close>

type_synonym headingNumbering = "int list"

definition headingNumbering_zero :: headingNumbering where
  "headingNumbering_zero = replicate 6 0"

definition headingNumbering_Observe :: "headingNumbering \<Rightarrow> int \<Rightarrow> headingNumbering option" where
  "headingNumbering_Observe hn level =
     (if level < 1 \<or> int (length hn) < level then None
      else let i = nat level - 1 in
        Some (take i hn @ [hn ! i + 1] @ replicate (length hn - i - 1) 0))"

definition headingNumbering_Render :: "headingNumbering \<Rightarrow> gostring" where
  "headingNumbering_Render hn = strings_Join (map Itoa (filter (\<lambda>c. c \<noteq> 0) hn)) (runes ''.'')"

text \<open>Observing a sequence of levels from a state, collecting the label after each.\<close>

fun observeAll :: "headingNumbering \<Rightarrow> int list \<Rightarrow> gostring list option" where
  "observeAll hn [] = Some []"
| "observeAll hn (l # ls) =
     (case headingNumbering_Observe hn l of
        None \<Rightarrow> None
      | Some hn' \<Rightarrow>
          (case observeAll hn' ls of
             None \<Rightarrow> None
           | Some labels \<Rightarrow> Some (headingNumbering_Render hn' # labels)))"

section \<open>Renderer state\<close>

text \<open>
  The struct \<^verbatim>\<open>renderer\<close>. The last two fields are not in the source: they count the
  calls of \<^verbatim>\<open>addPad\<close> and \<^verbatim>\<open>popPad\<close>, and nothing reads them.
\<close>

record 't renderer =
  lineWidth :: int
  leftPad :: int
  padAccumulator :: "gostring list"
  indent :: gostring
  inlineAccumulator :: gostring
  headingNumbering :: headingNumbering
  headingShade :: levelShadeFmt
  blockQuoteLevel :: int
  blockQuoteShade :: levelShadeFmt
  table :: "'t option"
  pushes :: nat
  pops :: nat

text \<open>
  \<^verbatim>\<open>Options\<close> is a function on the renderer; the two constructors of \<^verbatim>\<open>options.go\<close> are
  the only ones, each with the palette it was given.
\<close>

datatype Options = WithHeadingShades "shadeFmt list" | WithBlockquoteShades "shadeFmt list"

fun applyOption :: "('t, 'e) deps \<Rightarrow> Options \<Rightarrow> 't renderer \<Rightarrow> 't renderer" where
  "applyOption d (WithHeadingShades shades) r = r\<lparr>headingShade := shade (styleLib d) shades\<rparr>"
| "applyOption d (WithBlockquoteShades shades) r = r\<lparr>blockQuoteShade := shade (styleLib d) shades\<rparr>"

definition NewRenderer :: "('t, 'e) deps \<Rightarrow> int \<Rightarrow> int \<Rightarrow> Options list \<Rightarrow> 't renderer" where
  "NewRenderer d lineWidth' leftPad' opts =
     fold (applyOption d) opts
       \<lparr>lineWidth = lineWidth', leftPad = leftPad', padAccumulator = [], indent = [],
        inlineAccumulator = [], headingNumbering = headingNumbering_zero,
        headingShade = shade (styleLib d) (defaultHeadingShades (styleLib d)), blockQuoteLevel = 0,
        blockQuoteShade = shade (styleLib d) (defaultQuoteShades (styleLib d)), table = None,
        pushes = 0, pops = 0\<rparr>"

text \<open>\<^verbatim>\<open>strings.Repeat\<close> panics on a negative count.\<close>

definition strings_Repeat :: "gostring \<Rightarrow> int \<Rightarrow> panic + gostring" where
  "strings_Repeat s count =
     (if count < 0 then Inl NegativeRepeatCount else Inr (concat (replicate (nat count) s)))"

definition pad :: "'t renderer \<Rightarrow> panic + gostring" where
  "pad r =
     (case strings_Repeat [sp] (leftPad r) of
        Inl e \<Rightarrow> Inl e
      | Inr s \<Rightarrow> Inr (s @ strings_Join (padAccumulator r) []))"

definition addPad :: "'t renderer \<Rightarrow> gostring \<Rightarrow> 't renderer" where
  "addPad r p = r\<lparr>padAccumulator := padAccumulator r @ [p], pushes := Suc (pushes r)\<rparr>"

text \<open>Slicing off the last element of an empty slice panics.\<close>

definition popPad :: "'t renderer \<Rightarrow> panic + 't renderer" where
  "popPad r =
     (if padAccumulator r = [] then Inl SliceBoundsOutOfRange
      else Inr (r\<lparr>padAccumulator := butlast (padAccumulator r), pops := Suc (pops r)\<rparr>))"

section \<open>The renderer\<close>

text \<open>
  The output sink \<open>w\<close> is the text written so far; a function that writes returns the
  sink with its output appended. A Go panic is the value \<open>Inl\<close>.
\<close>

definition renderHorizontalRule :: "gostring \<Rightarrow> 't renderer \<Rightarrow> panic + gostring" where
  "renderHorizontalRule w r =
     (case pad r of
        Inl e \<Rightarrow> Inl e
      | Inr p \<Rightarrow>
          (case strings_Repeat [9472] (lineWidth r - leftPad r) of
             Inl e \<Rightarrow> Inl e
           | Inr rule \<Rightarrow> Inr (w @ p @ rule @ [nl, nl])))"

definition renderHeading ::
  "('t, 'e) deps \<Rightarrow> gostring \<Rightarrow> 't renderer \<Rightarrow> int \<Rightarrow> panic + (gostring \<times> 't renderer)" where
  "renderHeading d w r level =
     (let content = inlineAccumulator r;
          r1 = r\<lparr>inlineAccumulator := []\<rparr>
      in case headingNumbering_Observe (headingNumbering r1) level of
           None \<Rightarrow> Inl IndexOutOfRange
         | Some hn \<Rightarrow>
             (let r2 = r1\<lparr>headingNumbering := hn\<rparr>;
                  content1 = headingNumbering_Render hn @ [sp] @ content;
                  content2 = headingShade r2 level content1
              in case pad r2 of
                   Inl e \<Rightarrow> Inl e
                 | Inr p \<Rightarrow>
                     (let wrapped = WrapWithPad (textLib d) content2 (lineWidth r2) p;
                          w1 = w @ wrapped @ [nl]
                      in if level = 1
                         then (case strings_Repeat [9472] (lineWidth r2 - leftPad r2) of
                                 Inl e \<Rightarrow> Inl e
                               | Inr rule \<Rightarrow> Inr (w1 @ p @ rule @ [nl] @ [nl], r2))
                         else Inr (w1 @ [nl], r2))))"

text \<open>\<^verbatim>\<open>strings.TrimRight(code, "\n")\<close>.\<close>

definition trimRightNewlines :: "gostring \<Rightarrow> gostring" where
  "trimRightNewlines s = rev (dropWhile (\<lambda>c. c = nl) (rev s))"

definition renderFormattedCodeBlock ::
  "('t, 'e) deps \<Rightarrow> gostring \<Rightarrow> 't renderer \<Rightarrow> gostring \<Rightarrow> panic + (gostring \<times> 't renderer)" where
  "renderFormattedCodeBlock d w r code =
     (let code1 = trimRightNewlines code;
          r1 = addPad r (GreenBold (styleLib d) [9475, sp])
      in case pad r1 of
           Inl e \<Rightarrow> Inl e
         | Inr p \<Rightarrow>
             (let output = WrapWithPad (textLib d) code1 (lineWidth r1) p
              in case popPad r1 of
                   Inl e \<Rightarrow> Inl e
                 | Inr r2 \<Rightarrow> Inr (w @ output @ [nl, nl], r2)))"

definition renderCodeBlock ::
  "('t, 'e) deps \<Rightarrow> gostring \<Rightarrow> 't renderer \<Rightarrow> gostring \<Rightarrow> panic + (gostring \<times> 't renderer)" where
  "renderCodeBlock d w r literal = renderFormattedCodeBlock d w r literal"

definition renderHTMLBlock ::
  "('t, 'e) deps \<Rightarrow> gostring \<Rightarrow> 't renderer \<Rightarrow> gostring \<Rightarrow> panic + (gostring \<times> 't renderer)" where
  "renderHTMLBlock d w r literal =
     (let code = trimRightNewlines literal;
          r1 = addPad r (GreenBold (styleLib d) [9475, sp])
      in case pad r1 of
           Inl e \<Rightarrow> Inl e
         | Inr p \<Rightarrow>
             (let output = WrapWithPad (textLib d) code (lineWidth r1) p
              in case popPad r1 of
                   Inl e \<Rightarrow> Inl e
                 | Inr r2 \<Rightarrow> Inr (w @ output @ [nl, nl], r2)))"

text \<open>\<^verbatim>\<open>strings.ReplaceAll(s, "\n", "")\<close> and \<^verbatim>\<open>strings.TrimSpace\<close>.\<close>

definition removeNewlines :: "gostring \<Rightarrow> gostring" where
  "removeNewlines s = filter (\<lambda>c. c \<noteq> nl) s"

definition TrimSpace :: "gostring \<Rightarrow> gostring" where
  "TrimSpace s = TrimFunc s IsSpace"

definition renderImage ::
  "('t, 'e) deps \<Rightarrow> gostring \<Rightarrow> gostring \<Rightarrow> int \<Rightarrow> gostring \<times> bool" where
  "renderImage d dest title lineWidth' =
     (let title1 = TrimSpace (removeNewlines title);
          dest1 = TrimSpace (removeNewlines dest)
      in (runes ''!['' @ title1 @ runes '']('' @ Blue (styleLib d) dest1 @ runes '')'', False))"

text \<open>
  \<^verbatim>\<open>shouldCleanText\<close> climbs from the text node to the root. The argument is the chain of
  containers from the node's parent upwards; the node itself, a \<^verbatim>\<open>Text\<close>, which the
  loop looks at first, matches neither case of the switch.
\<close>

fun shouldCleanText :: "containerKind list \<Rightarrow> panic + bool" where
  "shouldCleanText [] = Inl BadMarkdownDocument"
| "shouldCleanText (k # ks) =
     (case k of
        BlockQuote \<Rightarrow> Inr False
      | Heading level \<Rightarrow> Inr True
      | Image dest \<Rightarrow> Inr True
      | Link dest title \<Rightarrow> Inr True
      | TableCell align isHeader \<Rightarrow> Inr True
      | Document \<Rightarrow> Inr True
      | ListItem flags \<Rightarrow> Inr True
      | _ \<Rightarrow> shouldCleanText ks)"

definition writeInline :: "'t renderer \<Rightarrow> gostring \<Rightarrow> 't renderer" where
  "writeInline r s = r\<lparr>inlineAccumulator := inlineAccumulator r @ s\<rparr>"

text \<open>The leaf cases of \<^verbatim>\<open>RenderNode\<close>; none of them reads \<^verbatim>\<open>entering\<close>.\<close>

fun RenderLeaf ::
  "('t, 'e) deps \<Rightarrow> gostring \<Rightarrow> 't renderer \<Rightarrow> leafKind \<Rightarrow> gostring \<Rightarrow> nodeCtx
     \<Rightarrow> panic + (gostring \<times> 't renderer \<times> WalkStatus)" where
  "RenderLeaf d w r Text literal cx =
     (if literal = [nl] then Inr (w, r, GoToNext)
      else (case shouldCleanText (parents cx) of
              Inl e \<Rightarrow> Inl e
            | Inr clean \<Rightarrow>
                Inr (w, writeInline r (if clean then removeLineBreak literal else literal),
                     GoToNext)))"
| "RenderLeaf d w r HorizontalRule literal cx =
     (case renderHorizontalRule w r of
        Inl e \<Rightarrow> Inl e
      | Inr w' \<Rightarrow> Inr (w', r, GoToNext))"
| "RenderLeaf d w r HTMLBlock literal cx =
     (case renderHTMLBlock d w r literal of
        Inl e \<Rightarrow> Inl e
      | Inr (w', r') \<Rightarrow> Inr (w', r', GoToNext))"
| "RenderLeaf d w r CodeBlock literal cx =
     (case renderCodeBlock d w r literal of
        Inl e \<Rightarrow> Inl e
      | Inr (w', r') \<Rightarrow> Inr (w', r', GoToNext))"
| "RenderLeaf d w r Softbreak literal cx = Inr (w, writeInline r [nl], GoToNext)"
| "RenderLeaf d w r Hardbreak literal cx = Inr (w, writeInline r [nl], GoToNext)"
| "RenderLeaf d w r Code literal cx =
     Inr (w, writeInline r (BlueBgItalic (styleLib d) literal), GoToNext)"
| "RenderLeaf d w r HTMLSpan literal cx =
     Inr (w, writeInline r (Red (styleLib d) literal), GoToNext)"
| "RenderLeaf d w r OtherLeaf literal cx = Inl UnknownNodeType"

text \<open>The two halves of the \<^verbatim>\<open>ListItem\<close> case.\<close>

definition enterListItem ::
  "('t, 'e) deps \<Rightarrow> 't renderer \<Rightarrow> int \<Rightarrow> nodeCtx \<Rightarrow> panic + 't renderer" where
  "enterListItem d r flags cx =
     (if flags AND ListTypeOrdered \<noteq> 0 then
        (case parents cx of
           [] \<Rightarrow> Inl NilDereference
         | parent # up \<Rightarrow>
             (let itemNumber = 1 + int (position cx);
                  prefix = Itoa itemNumber @ runes ''. ''
              in case pad r of
                   Inl e \<Rightarrow> Inl e
                 | Inr p \<Rightarrow>
                     Inr (addPad (r\<lparr>indent := p @ Green (styleLib d) prefix\<rparr>)
                            (replicate (Len (textLib d) prefix) sp))))
      else if flags AND ListTypeTerm \<noteq> 0 then Inr (writeInline r (greenOn (styleLib d)))
      else if flags AND ListTypeDefinition \<noteq> 0 then Inr (addPad r [sp, sp])
      else (case pad r of
              Inl e \<Rightarrow> Inl e
            | Inr p \<Rightarrow>
                Inr (addPad (r\<lparr>indent := p @ Green (styleLib d) [8226, sp]\<rparr>) [sp, sp])))"

definition exitListItem ::
  "('t, 'e) deps \<Rightarrow> gostring \<Rightarrow> 't renderer \<Rightarrow> int \<Rightarrow> panic + (gostring \<times> 't renderer)" where
  "exitListItem d w r flags =
     (if flags AND ListTypeOrdered \<noteq> 0 then
        (case popPad r of Inl e \<Rightarrow> Inl e | Inr r' \<Rightarrow> Inr (w, r'))
      else if flags AND ListTypeTerm \<noteq> 0 then Inr (w, writeInline r (colorOff (styleLib d)))
      else if flags AND ListTypeDefinition \<noteq> 0 then
        (case popPad r of Inl e \<Rightarrow> Inl e | Inr r' \<Rightarrow> Inr (w @ [nl], r'))
      else (case popPad r of Inl e \<Rightarrow> Inl e | Inr r' \<Rightarrow> Inr (w, r')))"

text \<open>The type tests on the next sibling and on the parent.\<close>

fun wantsSeparation :: "node \<Rightarrow> bool" where
  "wantsSeparation (Container Paragraph cs) = True"
| "wantsSeparation (Container (Heading level) cs) = True"
| "wantsSeparation (Leaf HorizontalRule literal) = True"
| "wantsSeparation (Leaf CodeBlock literal) = True"
| "wantsSeparation (Leaf HTMLBlock literal) = True"
| "wantsSeparation n = False"

fun isList :: "node \<Rightarrow> bool" where
  "isList (Container List cs) = True"
| "isList n = False"

fun parentIs :: "(containerKind \<Rightarrow> bool) \<Rightarrow> nodeCtx \<Rightarrow> bool" where
  "parentIs P cx = (case parents cx of [] \<Rightarrow> False | parent # up \<Rightarrow> P parent)"

fun isListItem :: "containerKind \<Rightarrow> bool" where
  "isListItem (ListItem flags) = True"
| "isListItem k = False"

definition exitParagraph ::
  "('t, 'e) deps \<Rightarrow> gostring \<Rightarrow> 't renderer \<Rightarrow> nodeCtx \<Rightarrow> panic + (gostring \<times> 't renderer)" where
  "exitParagraph d w r cx =
     (let content = inlineAccumulator r;
          r1 = r\<lparr>inlineAccumulator := []\<rparr>
      in case pad r1 of
           Inl e \<Rightarrow> Inl e
         | Inr p \<Rightarrow>
             (let (out, r2) =
                    (if indent r1 \<noteq> []
                     then (WrapWithPadIndent (textLib d) content (lineWidth r1) (indent r1) p,
                           r1\<lparr>indent := []\<rparr>)
                     else (WrapWithPad (textLib d) content (lineWidth r1) p, r1));
                  w1 = w @ out @ [nl]
              in case nextNode cx of
                   None \<Rightarrow> Inr (w1, r2)
                 | Some next \<Rightarrow> Inr (if wantsSeparation next then w1 @ [nl] else w1, r2)))"

definition exitStrong :: "('t, 'e) deps \<Rightarrow> 't renderer \<Rightarrow> 't renderer" where
  "exitStrong d r =
     (let es = Witness (textLib d) \<lparr>Bold = False, others = zeroOthers (textLib d)\<rparr>
                 (inlineAccumulator r);
          es1 = es\<lparr>Bold := False\<rparr>;
          r1 = writeInline r (resetAll (styleLib d))
      in writeInline r1 (FormatString (textLib d) es1))"

definition enterLink ::
  "('t, 'e) deps \<Rightarrow> 't renderer \<Rightarrow> gostring \<Rightarrow> gostring \<Rightarrow> node list \<Rightarrow> panic + 't renderer" where
  "enterLink d r destination title children =
     (let r1 = writeInline r (runes ''['')
      in case children of
           [] \<Rightarrow> Inl NilDereference
         | Container k cs # rest \<Rightarrow> Inl NilDereference
         | Leaf k literal # rest \<Rightarrow>
             (let r2 = writeInline r1 literal;
                  r3 = writeInline r2 (runes '']('');
                  r4 = writeInline r3 (Blue (styleLib d) destination);
                  r5 = (if length title > 0
                        then writeInline (writeInline r4 [sp]) title
                        else r4)
              in Inr (writeInline r5 (runes '')''))))"

definition enterImage ::
  "('t, 'e) deps \<Rightarrow> 't renderer \<Rightarrow> gostring \<Rightarrow> node list \<Rightarrow> 't renderer" where
  "enterImage d r destination children =
     (let title = (case children of [Leaf Text literal] \<Rightarrow> literal | _ \<Rightarrow> []);
          (str, rendered) = renderImage d destination title (lineWidth r - leftPad r)
      in if rendered
         then writeInline (writeInline (writeInline r [nl]) str) [nl, nl]
         else writeInline (writeInline r str) [nl])"

definition exitTableCell ::
  "('t, 'e) deps \<Rightarrow> 't renderer \<Rightarrow> int \<Rightarrow> bool \<Rightarrow> panic + 't renderer" where
  "exitTableCell d r align' isHeader =
     (let content = inlineAccumulator r;
          r1 = r\<lparr>inlineAccumulator := []\<rparr>;
          align = (if align' = TableAlignmentRight then CellAlignRight
                   else if align' = TableAlignmentCenter then CellAlignCenter
                   else CellAlignLeft)
      in case table r1 of
           None \<Rightarrow> Inl NilDereference
         | Some t \<Rightarrow>
             (if isHeader
              then Inr (r1\<lparr>table := Some (AddHeaderCell (tableLib d) t content align)\<rparr>)
              else Inr (r1\<lparr>table :=
                          Some (AddBodyCell (tableLib d) t content CellAlignCopyHeader)\<rparr>)))"

definition nextBodyRowIf :: "('t, 'e) deps \<Rightarrow> bool \<Rightarrow> 't renderer \<Rightarrow> panic + 't renderer" where
  "nextBodyRowIf d cond r =
     (if cond
      then (case table r of
              None \<Rightarrow> Inl NilDereference
            | Some t \<Rightarrow> Inr (r\<lparr>table := Some (NextBodyRow (tableLib d) t)\<rparr>))
      else Inr r)"

text \<open>The container cases of \<^verbatim>\<open>RenderNode\<close>.\<close>

fun RenderContainer ::
  "('t, 'e) deps \<Rightarrow> gostring \<Rightarrow> 't renderer \<Rightarrow> containerKind \<Rightarrow> node list \<Rightarrow> nodeCtx \<Rightarrow> bool
     \<Rightarrow> panic + (gostring \<times> 't renderer \<times> WalkStatus)" where
  "RenderContainer d w r Document cs cx entering = Inr (w, r, GoToNext)"
| "RenderContainer d w r BlockQuote cs cx entering =
     (if entering
      then (let r1 = r\<lparr>blockQuoteLevel := blockQuoteLevel r + 1\<rparr>
            in Inr (w, addPad r1 (blockQuoteShade r1 (blockQuoteLevel r1) [9475, sp]), GoToNext))
      else (case popPad (r\<lparr>blockQuoteLevel := blockQuoteLevel r - 1\<rparr>) of
              Inl e \<Rightarrow> Inl e
            | Inr r' \<Rightarrow> Inr (w, r', GoToNext)))"
| "RenderContainer d w r List cs cx entering =
     (case nextNode cx of
        None \<Rightarrow> Inr (w, r, GoToNext)
      | Some next \<Rightarrow>
          (if \<not> entering \<and> \<not> isList next \<and> \<not> parentIs isListItem cx
           then Inr (w @ [nl], r, GoToNext)
           else Inr (w, r, GoToNext)))"
| "RenderContainer d w r (ListItem flags) cs cx entering =
     (if entering
      then (case enterListItem d r flags cx of
              Inl e \<Rightarrow> Inl e
            | Inr r' \<Rightarrow> Inr (w, r', GoToNext))
      else (case exitListItem d w r flags of
              Inl e \<Rightarrow> Inl e
            | Inr (w', r') \<Rightarrow> Inr (w', r', GoToNext)))"
| "RenderContainer d w r Paragraph cs cx entering =
     (if \<not> entering
      then (case exitParagraph d w r cx of
              Inl e \<Rightarrow> Inl e
            | Inr (w', r') \<Rightarrow> Inr (w', r', GoToNext))
      else Inr (w, r, GoToNext))"
| "RenderContainer d w r (Heading level) cs cx entering =
     (if \<not> entering
      then (case renderHeading d w r level of
              Inl e \<Rightarrow> Inl e
            | Inr (w', r') \<Rightarrow> Inr (w', r', GoToNext))
      else Inr (w, r, GoToNext))"
| "RenderContainer d w r Emph cs cx entering =
     (if entering then Inr (w, writeInline r (italicOn (styleLib d)), GoToNext)
      else Inr (w, writeInline r (italicOff (styleLib d)), GoToNext))"
| "RenderContainer d w r Strong cs cx entering =
     (if entering then Inr (w, writeInline r (boldOn (styleLib d)), GoToNext)
      else Inr (w, exitStrong d r, GoToNext))"
| "RenderContainer d w r Del cs cx entering =
     (if entering then Inr (w, writeInline r (crossedOutOn (styleLib d)), GoToNext)
      else Inr (w, writeInline r (crossedOutOff (styleLib d)), GoToNext))"
| "RenderContainer d w r (Link destination title) cs cx entering =
     (if entering
      then (case enterLink d r destination title cs of
              Inl e \<Rightarrow> Inl e
            | Inr r' \<Rightarrow> Inr (w, r', SkipChildren))
      else Inr (w, r, GoToNext))"
| "RenderContainer d w r (Image destination) cs cx entering =
     (if entering then Inr (w, enterImage d r destination cs, SkipChildren)
      else Inr (w, r, GoToNext))"
| "RenderContainer d w r Table cs cx entering =
     (if entering then Inr (w, r\<lparr>table := Some (newTableRenderer (tableLib d))\<rparr>, GoToNext)
      else (case table r of
              None \<Rightarrow> Inl NilDereference
            | Some t \<Rightarrow>
                Inr (w @ tableRender (tableLib d) t (leftPad r) (lineWidth r),
                     r\<lparr>table := None\<rparr>, GoToNext)))"
| "RenderContainer d w r (TableCell align isHeader) cs cx entering =
     (if \<not> entering
      then (case exitTableCell d r align isHeader of
              Inl e \<Rightarrow> Inl e
            | Inr r' \<Rightarrow> Inr (w, r', GoToNext))
      else Inr (w, r, GoToNext))"
| "RenderContainer d w r TableHeader cs cx entering = Inr (w, r, GoToNext)"
| "RenderContainer d w r TableBody cs cx entering = Inr (w, r, GoToNext)"
| "RenderContainer d w r TableFooter cs cx entering = Inr (w, r, GoToNext)"
| "RenderContainer d w r TableRow cs cx entering =
     (case nextBodyRowIf d (parentIs (\<lambda>k. k = TableBody) cx \<and> entering) r of
        Inl e \<Rightarrow> Inl e
      | Inr r1 \<Rightarrow>
          (case nextBodyRowIf d (parentIs (\<lambda>k. k = TableFooter) cx \<and> entering) r1 of
             Inl e \<Rightarrow> Inl e
           | Inr r2 \<Rightarrow> Inr (w, r2, GoToNext)))"
| "RenderContainer d w r OtherContainer cs cx entering = Inl UnknownNodeType"

fun RenderNode ::
  "('t, 'e) deps \<Rightarrow> gostring \<Rightarrow> 't renderer \<Rightarrow> node \<Rightarrow> nodeCtx \<Rightarrow> bool
     \<Rightarrow> panic + (gostring \<times> 't renderer \<times> WalkStatus)" where
  "RenderNode d w r (Leaf k literal) cx entering = RenderLeaf d w r k literal cx"
| "RenderNode d w r (Container k cs) cx entering = RenderContainer d w r k cs cx entering"

section \<open>The walk\<close>

text \<open>
  The traversal that drives \<^verbatim>\<open>RenderNode\<close> belongs to the parser library
  (\<^verbatim>\<open>ast.Walk\<close>, called by \<^verbatim>\<open>md.Render\<close>): depth first, a container visited once on
  entry and once on exit, a leaf visited once, the children of a container left out when
  the visit on entry answers \<^verbatim>\<open>SkipChildren\<close>. \<^verbatim>\<open>RenderNode\<close> never answers
  \<^verbatim>\<open>Terminate\<close>.
\<close>

fun Walk ::
  "('t, 'e) deps \<Rightarrow> gostring \<times> 't renderer \<Rightarrow> nodeCtx \<Rightarrow> node
     \<Rightarrow> panic + (gostring \<times> 't renderer)"
and WalkChildren ::
  "('t, 'e) deps \<Rightarrow> gostring \<times> 't renderer \<Rightarrow> containerKind list \<Rightarrow> nat \<Rightarrow> node list
     \<Rightarrow> panic + (gostring \<times> 't renderer)" where
  "Walk d s cx (Leaf k literal) =
     (case RenderNode d (fst s) (snd s) (Leaf k literal) cx True of
        Inl e \<Rightarrow> Inl e
      | Inr (w1, r1, status) \<Rightarrow> Inr (w1, r1))"
| "Walk d s cx (Container k cs) =
     (case RenderNode d (fst s) (snd s) (Container k cs) cx True of
        Inl e \<Rightarrow> Inl e
      | Inr (w1, r1, status) \<Rightarrow>
          (case (if status = SkipChildren then Inr (w1, r1)
                 else WalkChildren d (w1, r1) (k # parents cx) 0 cs) of
             Inl e \<Rightarrow> Inl e
           | Inr s2 \<Rightarrow>
               (case RenderNode d (fst s2) (snd s2) (Container k cs) cx False of
                  Inl e \<Rightarrow> Inl e
                | Inr (w3, r3, status') \<Rightarrow> Inr (w3, r3))))"
| "WalkChildren d s ps i [] = Inr s"
| "WalkChildren d s ps i (c # cs) =
     (case Walk d s \<lparr>parents = ps, position = i,
                     nextNode = (case cs of [] \<Rightarrow> None | n # rest \<Rightarrow> Some n)\<rparr> c of
        Inl e \<Rightarrow> Inl e
      | Inr s' \<Rightarrow> WalkChildren d s' ps (Suc i) cs)"

text \<open>
  A render: a renderer fresh from \<^verbatim>\<open>NewRenderer\<close>, an empty sink, and the walk from the
  root, which has no parent and no sibling. \<^verbatim>\<open>RenderHeader\<close> and \<^verbatim>\<open>RenderFooter\<close> write
  nothing.
\<close>

definition rootCtx :: nodeCtx where
  "rootCtx = \<lparr>parents = [], position = 0, nextNode = None\<rparr>"

definition Render ::
  "('t, 'e) deps \<Rightarrow> int \<Rightarrow> int \<Rightarrow> Options list \<Rightarrow> node \<Rightarrow> panic + (gostring \<times> 't renderer)" where
  "Render d lineWidth' leftPad' opts doc =
     Walk d ([], NewRenderer d lineWidth' leftPad' opts) rootCtx doc"

section \<open>Notions of the specification\<close>

text \<open>
  The kinds under which text is cleaned, and the nearest ancestor that decides: the
  first container, going up from the parent, that is a block quote or one of these.
\<close>

fun cleaningKind :: "containerKind \<Rightarrow> bool" where
  "cleaningKind (Heading level) = True"
| "cleaningKind (Image destination) = True"
| "cleaningKind (Link destination title) = True"
| "cleaningKind (TableCell align isHeader) = True"
| "cleaningKind Document = True"
| "cleaningKind (ListItem flags) = True"
| "cleaningKind k = False"

definition nearestRelevant :: "containerKind list \<Rightarrow> containerKind option" where
  "nearestRelevant ps = find (\<lambda>k. k = BlockQuote \<or> cleaningKind k) ps"

text \<open>
  Two renderer states have the same frame when the padding stack and the block-quote
  level are the same and as many pads were pushed as popped in between.
\<close>

definition sameFrame :: "'t renderer \<Rightarrow> 't renderer \<Rightarrow> bool" where
  "sameFrame r r' \<longleftrightarrow>
     padAccumulator r' = padAccumulator r \<and> blockQuoteLevel r' = blockQuoteLevel r
     \<and> pushes r' + pops r = pops r' + pushes r"

section \<open>A sample configuration\<close>

text \<open>
  Collaborators for running the renderer on concrete documents: a terminal without
  colour (the style helpers change nothing and the escape codes are empty, so no text
  carries a style to witness), text whose lines never need wrapping, and a table kept
  as its header cells and body rows.
\<close>

definition plainText :: "unit textlib" where
  "plainText =
     \<lparr>WrapWithPad = (\<lambda>text width pad'.
        strings_Join (map (\<lambda>l. pad' @ l) (strings_Split text nl)) [nl]),
      WrapWithPadIndent = (\<lambda>text width indent' pad'.
        (case strings_Split text nl of
           [] \<Rightarrow> indent'
         | l # ls \<Rightarrow> strings_Join ((indent' @ l) # map (\<lambda>l. pad' @ l) ls) [nl])),
      Len = length,
      zeroOthers = (),
      Witness = (\<lambda>es s. es),
      FormatString = (\<lambda>es. [])\<rparr>"

definition plainStyles :: styles where
  "plainStyles =
     \<lparr>Green = (\<lambda>s. s), GreenBold = (\<lambda>s. s), Blue = (\<lambda>s. s), BlueBgItalic = (\<lambda>s. s),
      Red = (\<lambda>s. s), greenOn = [], colorOff = [], italicOn = [], italicOff = [],
      boldOn = [], resetAll = [], crossedOutOn = [], crossedOutOff = [],
      shade = (\<lambda>shades level.
        if shades = [] then (\<lambda>s. s) else shades ! (nat level mod length shades)),
      defaultHeadingShades = [\<lambda>s. s], defaultQuoteShades = [\<lambda>s. s]\<rparr>"

type_synonym plainTable = "gostring list \<times> gostring list list"

definition plainTables :: "plainTable tablelib" where
  "plainTables =
     \<lparr>newTableRenderer = ([], []),
      AddHeaderCell = (\<lambda>t content align. (fst t @ [content], snd t)),
      AddBodyCell = (\<lambda>t content align.
        (fst t, (if snd t = [] then [[content]]
                 else butlast (snd t) @ [last (snd t) @ [content]]))),
      NextBodyRow = (\<lambda>t. (fst t, snd t @ [[]])),
      tableRender = (\<lambda>t leftPad' lineWidth'.
        concat (map (\<lambda>row. replicate (nat leftPad') sp @ strings_Join row (runes '' | '') @ [nl])
                  (fst t # snd t)))\<rparr>"

definition plain :: "(plainTable, unit) deps" where
  "plain = \<lparr>textLib = plainText, styleLib = plainStyles, tableLib = plainTables\<rparr>"

text \<open>A renderer as \<^verbatim>\<open>NewRenderer(80, 0)\<close> makes it, and sample contexts and documents.\<close>

definition r80 :: "plainTable renderer" where
  "r80 = NewRenderer plain 80 0 []"

definition underParagraphIn :: "containerKind \<Rightarrow> nodeCtx" where
  "underParagraphIn k = \<lparr>parents = [Paragraph, k, Document], position = 0, nextNode = None\<rparr>"

definition quoteDoc :: node where
  "quoteDoc = Container Document
     [Container BlockQuote [Container Paragraph [Leaf Text (runes ''q'')]]]"

section \<open>Line-break removal\<close>

lemma strings_Split_nonempty: "strings_Split s sep \<noteq> []"
  by (induction s) (auto split: list.splits)

lemma strings_Split_no_sep: "sep \<notin> set s \<Longrightarrow> strings_Split s sep = [s]"
  by (induction s) auto

lemma strings_Split_append:
  "sep \<notin> set f \<Longrightarrow> strings_Split (f @ sep # rest) sep = f # strings_Split rest sep"
  by (induction f) auto

lemma strings_Split_Join:
  "\<forall>l \<in> set (f # fs). sep \<notin> set l \<Longrightarrow>
     strings_Split (strings_Join (f # fs) [sep]) sep = f # fs"
proof (induction fs arbitrary: f)
  case Nil
  then show ?case by (simp add: strings_Split_no_sep)
next
  case (Cons g gs)
  have "strings_Split (strings_Join (f # g # gs) [sep]) sep
        = f # strings_Split (strings_Join (g # gs) [sep]) sep"
    using Cons.prems by (simp add: strings_Split_append)
  also have "\<dots> = f # g # gs"
    using Cons.IH [of g] Cons.prems by simp
  finally show ?case .
qed

lemma trim_enumerate_mid:
  "0 < k \<Longrightarrow> k + length mid \<le> n - 1 \<Longrightarrow>
     map (\<lambda>(i, l). trimLine n i l) (enumerate k mid) = map (\<lambda>l. TrimFunc l IsSpace) mid"
  by (induction mid arbitrary: k) (auto simp: trimLine_def)

lemma strings_Join_Cons_nonempty:
  "xs \<noteq> [] \<Longrightarrow> strings_Join (x # xs) sep = x @ sep @ strings_Join xs sep"
  by (cases xs) simp_all

lemma strings_Join_Split: "strings_Join (strings_Split s sep) [sep] = s"
proof (induction s)
  case Nil
  then show ?case by simp
next
  case (Cons c cs)
  obtain l ls where split: "strings_Split cs sep = l # ls"
    using strings_Split_nonempty [of cs sep] by (cases "strings_Split cs sep") auto
  show ?case
  proof (cases "c = sep")
    case True
    then show ?thesis
      using Cons.IH by (simp add: strings_Join_Cons_nonempty strings_Split_nonempty)
  next
    case False
    then show ?thesis
      using Cons.IH split by (cases ls) simp_all
  qed
qed

lemma strings_Split_fragments: "l \<in> set (strings_Split s sep) \<Longrightarrow> sep \<notin> set l"
  by (induction s arbitrary: l) (auto split: if_splits list.splits)

lemma strings_Split_two: "sep \<in> set s \<Longrightarrow> 2 \<le> length (strings_Split s sep)"
proof (induction s)
  case Nil
  then show ?case by simp
next
  case (Cons c cs)
  then show ?case
    using strings_Split_nonempty [of cs sep]
    by (cases "strings_Split cs sep") (auto split: if_splits)
qed

text \<open>
  Every text with a line break in it is made of fragments without line breaks, joined
  by line breaks: at least a first and a last one.
\<close>

lemma line_break_fragments_exist:
  assumes "nl \<in> set s"
  shows "\<exists>first mid last'. s = strings_Join (first # mid @ [last']) [nl]
           \<and> (\<forall>l \<in> set (first # mid @ [last']). nl \<notin> set l)"
proof -
  from strings_Split_two [OF assms]
  obtain first rest where fr: "strings_Split s nl = first # rest" "rest \<noteq> []"
    by (cases "strings_Split s nl") fastforce+
  then obtain mid last' where "rest = mid @ [last']"
    by (metis append_butlast_last_id)
  with fr have "strings_Split s nl = first # mid @ [last']"
    by simp
  then show ?thesis
    using strings_Join_Split [of s nl] strings_Split_fragments [of _ s nl] by metis
qed

lemma removeLineBreak_fragments:
  assumes "\<forall>l \<in> set (first # mid @ [last']). nl \<notin> set l"
  shows "removeLineBreak (strings_Join (first # mid @ [last']) [nl])
         = strings_Join (TrimRightFunc first IsSpace # map (\<lambda>l. TrimFunc l IsSpace) mid
                         @ [TrimLeftFunc last' IsSpace]) [sp]"
proof -
  let ?ls = "first # mid @ [last']"
  have split: "strings_Split (strings_Join ?ls [nl]) nl = ?ls"
    using assms strings_Split_Join [of first "mid @ [last']" nl] by simp
  have mid: "map (\<lambda>(i, l). trimLine (length ?ls) i l) (enumerate (Suc 0) mid)
             = map (\<lambda>l. TrimFunc l IsSpace) mid"
    by (rule trim_enumerate_mid) simp_all
  have "map (\<lambda>(i, l). trimLine (length ?ls) i l) (enumerate 0 ?ls)
        = TrimRightFunc first IsSpace # map (\<lambda>l. TrimFunc l IsSpace) mid
          @ [TrimLeftFunc last' IsSpace]"
    using mid by (simp add: enumerate_append_eq trimLine_def)
  then show ?thesis
    using split by (simp add: removeLineBreak_def Let_def del: strings_Join.simps)
qed

section \<open>Text nodes\<close>

lemma shouldCleanText_nearest:
  "shouldCleanText ps =
     (case nearestRelevant ps of
        None \<Rightarrow> Inl BadMarkdownDocument
      | Some k \<Rightarrow> Inr (cleaningKind k))"
  by (induction ps) (auto simp: nearestRelevant_def split: containerKind.splits)

lemma nearestRelevant_Some:
  "nearestRelevant ps = Some k \<Longrightarrow> k = BlockQuote \<or> cleaningKind k"
  unfolding nearestRelevant_def by (auto simp: find_Some_iff)

lemma RenderNode_Text:
  assumes "literal \<noteq> [nl]" and "nearestRelevant (parents cx) = Some k"
  shows "RenderNode d w r (Leaf Text literal) cx entering =
           Inr (w, r\<lparr>inlineAccumulator := inlineAccumulator r
                        @ (if k = BlockQuote then literal else removeLineBreak literal)\<rparr>,
                GoToNext)"
proof -
  have "cleaningKind k \<longleftrightarrow> k \<noteq> BlockQuote"
    using nearestRelevant_Some [OF assms(2)] by auto
  then show ?thesis
    using assms by (auto simp: shouldCleanText_nearest writeInline_def)
qed

lemma removeLineBreak_Hello_World:
  "removeLineBreak (runes ''Hello'' @ [nl] @ runes ''World'') = runes ''Hello World''"
  by (simp add: removeLineBreak_def runes_def nl_def sp_def trimLine_def TrimRightFunc_def
      TrimLeftFunc_def IsSpace_def enumerate_eq_zip Let_def)

lemma RenderNode_lone_line_break:
  "RenderNode d w r (Leaf Text [nl]) cx entering = Inr (w, r, GoToNext)"
  by simp

lemma Walk_Link_leaf:
  "Walk d (w, r) cx (Container (Link destination title) (Leaf k label # rest)) =
     Inr (w, r\<lparr>inlineAccumulator := inlineAccumulator r @ runes ''['' @ label
                  @ runes '']('' @ Blue (styleLib d) destination
                  @ (if title \<noteq> [] then [sp] @ title else []) @ runes '')''\<rparr>)"
  by (simp add: enterLink_def writeInline_def Let_def)

lemma Walk_Image_text:
  "Walk d (w, r) cx (Container (Image destination) [Leaf Text alt]) =
     Inr (w, r\<lparr>inlineAccumulator := inlineAccumulator r @ runes ''!['' 
                  @ TrimSpace (removeNewlines alt)
                  @ runes '']('' @ Blue (styleLib d) (TrimSpace (removeNewlines destination))
                  @ runes '')'' @ [nl]\<rparr>)"
  by (simp add: enterImage_def renderImage_def writeInline_def Let_def)

text \<open>
  Against C1 as it is worded: on \<^verbatim>\<open>" a \n b "\<close> the code strips the whitespace on
  both sides of the break and keeps the leading blank of the first fragment and the
  trailing blank of the last, where the wording strips those two and keeps the blanks
  next to the break; a text node that is exactly one line break adds nothing to the
  accumulator, not even the single space; the text of a link keeps its line break in the
  label, and the text of an image loses it with no space in its place.
\<close>

theorem removeLineBreak_not_as_worded:
  "removeLineBreak (runes '' a '' @ [nl] @ runes '' b '') = runes '' a b ''
   \<and> collapse_as_specified (runes '' a '') [] (runes '' b '') = runes ''a   b''
   \<and> RenderNode plain [] r80 (Leaf Text [nl])
         \<lparr>parents = [Paragraph, Document], position = 0, nextNode = None\<rparr> True =
       Inr ([], r80, GoToNext)
   \<and> Walk plain ([], r80) (underParagraphIn Document)
         (Container (Link (runes ''u'') []) [Leaf Text (runes ''a '' @ [nl] @ runes '' b'')]) =
       Inr ([], r80\<lparr>inlineAccumulator := runes ''[a '' @ [nl] @ runes '' b](u)''\<rparr>)
   \<and> Walk plain ([], r80) (underParagraphIn Document)
         (Container (Image (runes ''u'')) [Leaf Text (runes ''a'' @ [nl] @ runes ''b'')]) =
       Inr ([], r80\<lparr>inlineAccumulator := runes ''![ab](u)'' @ [nl]\<rparr>)"
  by (simp add: removeLineBreak_def runes_def nl_def sp_def trimLine_def TrimRightFunc_def
      TrimLeftFunc_def TrimFunc_def IsSpace_def enumerate_eq_zip Let_def
      collapse_as_specified_def Walk_Link_leaf Walk_Image_text plain_def plainStyles_def
      TrimSpace_def removeNewlines_def r80_def NewRenderer_def del: Walk.simps)

text \<open>
  C1, amended: a text node passed to \<^verbatim>\<open>RenderNode\<close> whose literal is not exactly one
  line break, under a nearest relevant ancestor that is a heading, image, link, table
  cell, document or list item, is appended to the inline accumulator with its fragments
  joined by single spaces, trailing whitespace stripped from the first fragment, leading
  whitespace from the last, and both sides from the fragments between (the fragments
  are the pieces between the line breaks; every text with a line break has them). A text
  node that is exactly one line break adds nothing, whatever its ancestors. The walk
  passes no child of a link or an image: the literal of a link's first leaf child is
  the label as it is, and the literal of an image's only text child is the alt text
  with its line breaks removed and nothing in their place.
\<close>

theorem text_line_breaks_collapsed:
  "((\<forall>l \<in> set (first # mid @ [last']). nl \<notin> set l)
      \<and> literal = strings_Join (first # mid @ [last']) [nl] \<and> literal \<noteq> [nl]
      \<and> nearestRelevant (parents cx) = Some k \<and> cleaningKind k \<longrightarrow>
    RenderNode d w r (Leaf Text literal) cx entering =
      Inr (w, r\<lparr>inlineAccumulator := inlineAccumulator r
             @ strings_Join (TrimRightFunc first IsSpace
                             # map (\<lambda>l. TrimFunc l IsSpace) mid
                             @ [TrimLeftFunc last' IsSpace]) [sp]\<rparr>,
           GoToNext))
   \<and> RenderNode d w r (Leaf Text [nl]) cx entering = Inr (w, r, GoToNext)
   \<and> Walk d (w, r) cx (Container (Link destination title) (Leaf kind label # rest)) =
       Inr (w, r\<lparr>inlineAccumulator := inlineAccumulator r @ runes ''['' @ label
                    @ runes '']('' @ Blue (styleLib d) destination
                    @ (if title \<noteq> [] then [sp] @ title else []) @ runes '')''\<rparr>)
   \<and> Walk d (w, r) cx (Container (Image destination) [Leaf Text alt]) =
       Inr (w, r\<lparr>inlineAccumulator := inlineAccumulator r @ runes ''!['' 
                    @ TrimSpace (removeNewlines alt)
                    @ runes '']('' @ Blue (styleLib d) (TrimSpace (removeNewlines destination))
                    @ runes '')'' @ [nl]\<rparr>)"
proof (intro conjI impI)
  assume a: "(\<forall>l \<in> set (first # mid @ [last']). nl \<notin> set l)
      \<and> literal = strings_Join (first # mid @ [last']) [nl] \<and> literal \<noteq> [nl]
      \<and> nearestRelevant (parents cx) = Some k \<and> cleaningKind k"
  then have lit: "literal \<noteq> [nl]" and nr: "nearestRelevant (parents cx) = Some k"
    and "k \<noteq> BlockQuote"
    by auto
  then have "RenderNode d w r (Leaf Text literal) cx entering =
               Inr (w, r\<lparr>inlineAccumulator := inlineAccumulator r @ removeLineBreak literal\<rparr>,
                    GoToNext)"
    using RenderNode_Text [OF lit nr, of d w r entering] by (simp only: if_False)
  moreover have "removeLineBreak literal =
      strings_Join (TrimRightFunc first IsSpace # map (\<lambda>l. TrimFunc l IsSpace) mid
                    @ [TrimLeftFunc last' IsSpace]) [sp]"
    using a removeLineBreak_fragments [of first mid last'] by simp
  ultimately show "RenderNode d w r (Leaf Text literal) cx entering =
      Inr (w, r\<lparr>inlineAccumulator := inlineAccumulator r
             @ strings_Join (TrimRightFunc first IsSpace
                             # map (\<lambda>l. TrimFunc l IsSpace) mid
                             @ [TrimLeftFunc last' IsSpace]) [sp]\<rparr>,
           GoToNext)"
    by simp
qed (simp_all only: RenderNode_lone_line_break Walk_Link_leaf Walk_Image_text)


theorem text_line_breaks_collapsed_witness:
  "RenderNode plain [] r80
     (Leaf Text (runes '' a '' @ [nl] @ runes '' b '' @ [nl] @ runes '' c ''))
     (underParagraphIn (ListItem 0)) True =
   Inr ([], r80\<lparr>inlineAccumulator := runes '' a b c ''\<rparr>, GoToNext)
   \<and> RenderNode plain [] r80 (Leaf Text [nl])
       \<lparr>parents = [Heading 1, Document], position = 0, nextNode = None\<rparr> True =
     Inr ([], r80, GoToNext)"
  using text_line_breaks_collapsed [where first = "runes '' a ''" and mid = "[runes '' b '']"
      and last' = "runes '' c ''" and cx = "underParagraphIn (ListItem 0)" and k = "ListItem 0"
      and literal = "runes '' a '' @ [nl] @ runes '' b '' @ [nl] @ runes '' c ''"
      and d = plain and w = "[]" and r = r80 and entering = True]
  by (simp add: runes_def nl_def sp_def nearestRelevant_def underParagraphIn_def
      TrimRightFunc_def TrimLeftFunc_def TrimFunc_def IsSpace_def r80_def NewRenderer_def
      del: Walk.simps)

text \<open>
  C2, amended: for a text node passed to \<^verbatim>\<open>RenderNode\<close> whose literal is not exactly
  one line break, the nearest relevant ancestor decides: under a block quote the literal
  is appended as it is, line breaks included; under a cleaning kind it is appended with
  its line breaks removed by \<^verbatim>\<open>removeLineBreak\<close>. Directly under a heading, or under
  a paragraph at document level, \<^verbatim>\<open>"Hello\nWorld"\<close> is appended as
  \<^verbatim>\<open>"Hello World"\<close>. A text node that is exactly one line break adds nothing, whatever
  its ancestors. The walk passes no child of a link or an image: a link's label is the
  literal of its first leaf child as it is, and an image's alt text is the literal of its
  only text child without its line breaks.
\<close>

theorem text_cleaning_by_nearest_ancestor:
  "(literal \<noteq> [nl] \<and> nearestRelevant (parents cx) = Some k \<longrightarrow>
      RenderNode d w r (Leaf Text literal) cx entering =
        Inr (w, r\<lparr>inlineAccumulator := inlineAccumulator r
                     @ (if k = BlockQuote then literal else removeLineBreak literal)\<rparr>,
             GoToNext))
   \<and> (parents cx = Heading level # up \<or> parents cx = [Paragraph, Document] \<longrightarrow>
      RenderNode d w r (Leaf Text (runes ''Hello'' @ [nl] @ runes ''World'')) cx entering =
        Inr (w, r\<lparr>inlineAccumulator := inlineAccumulator r @ runes ''Hello World''\<rparr>,
             GoToNext))
   \<and> RenderNode d w r (Leaf Text [nl]) cx entering = Inr (w, r, GoToNext)
   \<and> Walk d (w, r) cx (Container (Link destination title) (Leaf kind label # rest)) =
       Inr (w, r\<lparr>inlineAccumulator := inlineAccumulator r @ runes ''['' @ label
                    @ runes '']('' @ Blue (styleLib d) destination
                    @ (if title \<noteq> [] then [sp] @ title else []) @ runes '')''\<rparr>)
   \<and> Walk d (w, r) cx (Container (Image destination) [Leaf Text alt]) =
       Inr (w, r\<lparr>inlineAccumulator := inlineAccumulator r @ runes ''!['' 
                    @ TrimSpace (removeNewlines alt)
                    @ runes '']('' @ Blue (styleLib d) (TrimSpace (removeNewlines destination))
                    @ runes '')'' @ [nl]\<rparr>)"
proof (intro conjI impI)
  assume "literal \<noteq> [nl] \<and> nearestRelevant (parents cx) = Some k"
  then show "RenderNode d w r (Leaf Text literal) cx entering =
        Inr (w, r\<lparr>inlineAccumulator := inlineAccumulator r
                     @ (if k = BlockQuote then literal else removeLineBreak literal)\<rparr>,
             GoToNext)"
    using RenderNode_Text by blast
next
  let ?hw = "runes ''Hello'' @ [nl] @ runes ''World''"
  assume "parents cx = Heading level # up \<or> parents cx = [Paragraph, Document]"
  then obtain k where k: "nearestRelevant (parents cx) = Some k" "k \<noteq> BlockQuote"
    by (auto simp: nearestRelevant_def)
  have "?hw \<noteq> [nl]"
    by (simp add: runes_def)
  from RenderNode_Text [OF this k(1), of d w r entering] k(2)
  show "RenderNode d w r (Leaf Text ?hw) cx entering =
        Inr (w, r\<lparr>inlineAccumulator := inlineAccumulator r @ runes ''Hello World''\<rparr>,
             GoToNext)"
    by (simp only: if_False removeLineBreak_Hello_World)
qed (simp_all only: RenderNode_lone_line_break Walk_Link_leaf Walk_Image_text)

theorem text_cleaning_by_nearest_ancestor_witness:
  "RenderNode plain [] r80 (Leaf Text (runes ''Hello'' @ [nl] @ runes ''World''))
     (underParagraphIn BlockQuote) True =
   Inr ([], r80\<lparr>inlineAccumulator := runes ''Hello'' @ [nl] @ runes ''World''\<rparr>, GoToNext)
   \<and> RenderNode plain [] r80 (Leaf Text (runes ''Hello'' @ [nl] @ runes ''World''))
     \<lparr>parents = [Paragraph, Document], position = 0, nextNode = None\<rparr> True =
   Inr ([], r80\<lparr>inlineAccumulator := runes ''Hello World''\<rparr>, GoToNext)
   \<and> RenderNode plain [] r80 (Leaf Text [nl])
     \<lparr>parents = [TableCell 0 False, TableRow, TableBody, Table, Document], position = 0,
        nextNode = None\<rparr> True =
   Inr ([], r80, GoToNext)"
  using text_cleaning_by_nearest_ancestor
      [where literal = "runes ''Hello'' @ [nl] @ runes ''World''" and cx = "underParagraphIn BlockQuote"
      and k = BlockQuote and d = plain and w = "[]" and r = r80 and entering = True]
    text_cleaning_by_nearest_ancestor
      [where cx = "\<lparr>parents = [Paragraph, Document], position = 0, nextNode = None\<rparr>"
      and d = plain and w = "[]" and r = r80 and entering = True]
  by (simp add: runes_def nl_def nearestRelevant_def underParagraphIn_def r80_def
      NewRenderer_def del: Walk.simps)

text \<open>
  Against C2 as it is worded: a text node that is exactly one line break, inside a block
  quote, leaves the accumulator as it was, so the author's line break is not kept; and
  \<^verbatim>\<open>"Hello\nWorld"\<close> in a link under a paragraph at document level, or under a
  heading, is written with its line break.
\<close>

theorem lone_line_break_in_quote_dropped:
  "RenderNode plain [] r80 (Leaf Text [nl]) (underParagraphIn BlockQuote) True =
     Inr ([], r80, GoToNext)
   \<and> nearestRelevant (parents (underParagraphIn BlockQuote)) = Some BlockQuote
   \<and> inlineAccumulator r80 @ [nl] \<noteq> inlineAccumulator r80
   \<and> Walk plain ([], r80) \<lparr>parents = [Paragraph, Document], position = 0, nextNode = None\<rparr>
         (Container (Link (runes ''u'') []) [Leaf Text (runes ''Hello'' @ [nl] @ runes ''World'')])
       = Inr ([], r80\<lparr>inlineAccumulator := runes ''[Hello'' @ [nl] @ runes ''World](u)''\<rparr>)
   \<and> Walk plain ([], r80) \<lparr>parents = [Heading 1, Document], position = 0, nextNode = None\<rparr>
         (Container (Link (runes ''u'') []) [Leaf Text (runes ''Hello'' @ [nl] @ runes ''World'')])
       = Inr ([], r80\<lparr>inlineAccumulator := runes ''[Hello'' @ [nl] @ runes ''World](u)''\<rparr>)"
  by (simp add: nearestRelevant_def underParagraphIn_def Walk_Link_leaf plain_def
      plainStyles_def runes_def r80_def NewRenderer_def del: Walk.simps)

section \<open>The padding stack\<close>

lemma sameFrame_refl: "sameFrame r r"
  by (simp add: sameFrame_def)

lemma sameFrame_trans: "sameFrame r r1 \<Longrightarrow> sameFrame r1 r2 \<Longrightarrow> sameFrame r r2"
  by (auto simp: sameFrame_def)

lemma sameFrame_writeInline: "sameFrame r (writeInline r s)"
  by (simp add: sameFrame_def writeInline_def)

lemma popPad_addPad: "popPad (addPad r p) = Inr (r\<lparr>pushes := Suc (pushes r), pops := Suc (pops r)\<rparr>)"
  by (simp add: popPad_def addPad_def)

lemma renderFormattedCodeBlock_frame:
  "renderFormattedCodeBlock d w r code = Inr (w', r') \<Longrightarrow> sameFrame r r'"
  by (auto simp: renderFormattedCodeBlock_def Let_def popPad_addPad sameFrame_def
      split: sum.splits)

lemma renderHTMLBlock_frame:
  "renderHTMLBlock d w r code = Inr (w', r') \<Longrightarrow> sameFrame r r'"
  by (auto simp: renderHTMLBlock_def Let_def popPad_addPad sameFrame_def
      split: sum.splits)

lemma RenderLeaf_frame:
  "RenderLeaf d w r k literal cx = Inr (w', r', st) \<Longrightarrow> sameFrame r r'"
  by (cases k)
    (auto simp: sameFrame_writeInline sameFrame_refl renderCodeBlock_def
        dest: renderFormattedCodeBlock_frame renderHTMLBlock_frame
        split: sum.splits if_splits)

lemma renderHeading_frame:
  "renderHeading d w r level = Inr (w', r') \<Longrightarrow> sameFrame r r'"
  by (auto simp: renderHeading_def Let_def sameFrame_def split: option.splits sum.splits if_splits)

lemma exitParagraph_frame:
  "exitParagraph d w r cx = Inr (w', r') \<Longrightarrow> sameFrame r r'"
  by (auto simp: exitParagraph_def Let_def sameFrame_def split: option.splits sum.splits if_splits)

lemma exitTableCell_frame:
  "exitTableCell d r a h = Inr r' \<Longrightarrow> sameFrame r r'"
  by (auto simp: exitTableCell_def Let_def sameFrame_def split: option.splits if_splits)

lemma nextBodyRowIf_frame:
  "nextBodyRowIf d c r = Inr r' \<Longrightarrow> sameFrame r r'"
  by (auto simp: nextBodyRowIf_def sameFrame_def split: option.splits if_splits)

lemma enterLink_frame:
  "enterLink d r dest title cs = Inr r' \<Longrightarrow> sameFrame r r'"
  by (auto simp: enterLink_def Let_def sameFrame_def writeInline_def
      split: list.splits node.splits if_splits)

lemma enterImage_frame: "sameFrame r (enterImage d r dest cs)"
  by (auto simp: enterImage_def Let_def sameFrame_def writeInline_def split: prod.splits)

lemma exitStrong_frame: "sameFrame r (exitStrong d r)"
  by (auto simp: exitStrong_def Let_def sameFrame_def writeInline_def)

lemma ListItem_frame:
  assumes "enterListItem d r flags cx = Inr r1" and "sameFrame r1 r2"
      and "exitListItem d w2 r2 flags = Inr (w3, r3)"
  shows "sameFrame r r3"
  using assms
  by (auto simp: enterListItem_def exitListItem_def sameFrame_def addPad_def popPad_def
      writeInline_def Let_def split: if_splits list.splits sum.splits)

lemma BlockQuote_frame:
  assumes "RenderContainer d w r BlockQuote cs cx True = Inr (w1, r1, st)" and "sameFrame r1 r2"
      and "RenderContainer d w2 r2 BlockQuote cs cx False = Inr (w3, r3, st')"
  shows "sameFrame r r3"
  using assms
  by (auto simp: sameFrame_def addPad_def popPad_def Let_def split: if_splits sum.splits)


lemma sameFrame_table: "sameFrame r (r\<lparr>table := t\<rparr>)"
  by (simp add: sameFrame_def)

lemma RenderContainer_single_frame:
  assumes "k \<noteq> BlockQuote" and "\<forall>flags. k \<noteq> ListItem flags"
      and "RenderContainer d w r k cs cx e = Inr (w', r', st)"
  shows "sameFrame r r'"
  using assms
  by (cases k)
    (auto simp: sameFrame_writeInline sameFrame_refl sameFrame_table exitStrong_frame
        enterImage_frame
        dest: renderHeading_frame exitParagraph_frame exitTableCell_frame enterLink_frame
        dest!: nextBodyRowIf_frame
        intro: sameFrame_trans
        split: sum.splits if_splits option.splits)

lemma RenderContainer_frame:
  assumes enter: "RenderContainer d w r k cs cx True = Inr (w1, r1, st)"
      and children: "sameFrame r1 r2"
      and exit: "RenderContainer d w2 r2 k cs cx False = Inr (w3, r3, st')"
  shows "sameFrame r r3"
proof (cases "k = BlockQuote \<or> (\<exists>flags. k = ListItem flags)")
  case True
  then show ?thesis
  proof
    assume "k = BlockQuote"
    then show ?thesis
      using BlockQuote_frame enter children exit by blast
  next
    assume "\<exists>flags. k = ListItem flags"
    then obtain flags where k: "k = ListItem flags" ..
    from enter k obtain "enterListItem d r flags cx = Inr r1"
      by (auto split: sum.splits)
    moreover from exit k have "exitListItem d w2 r2 flags = Inr (w3, r3)"
      by (auto split: sum.splits)
    ultimately show ?thesis
      using ListItem_frame children by blast
  qed
next
  case False
  then have "sameFrame r r1" and "sameFrame r2 r3"
    using RenderContainer_single_frame enter exit by blast+
  then show ?thesis
    using children sameFrame_trans by blast
qed

lemma Walk_frame:
  "Walk d s cx n = Inr s' \<Longrightarrow> sameFrame (snd s) (snd s')"
  "WalkChildren d s ps i cs = Inr s' \<Longrightarrow> sameFrame (snd s) (snd s')"
proof (induction d s cx n and d s ps i cs arbitrary: s' and s' rule: Walk_WalkChildren.induct)
  case (1 d s cx k literal)
  then show ?case
    by (auto split: sum.splits dest: RenderLeaf_frame)
next
  case (2 d s cx k cs)
  from "2.prems" obtain w1 r1 st where
    enter: "RenderContainer d (fst s) (snd s) k cs cx True = Inr (w1, r1, st)"
    by (auto split: sum.splits)
  from "2.prems" enter obtain s2 where
    children: "(if st = SkipChildren then Inr (w1, r1)
                else WalkChildren d (w1, r1) (k # parents cx) 0 cs) = Inr s2"
    by (auto split: sum.splits)
  from "2.prems" enter children obtain st' where
    exit: "RenderContainer d (fst s2) (snd s2) k cs cx False = Inr (fst s', snd s', st')"
    by (auto split: sum.splits if_splits)
  have "sameFrame r1 (snd s2)"
  proof (cases "st = SkipChildren")
    case True
    then show ?thesis
      using children by (auto simp: sameFrame_refl)
  next
    case False
    then have "WalkChildren d (w1, r1) (k # parents cx) 0 cs = Inr s2"
      using children by simp
    from "2.IH" [OF _ _ _ False this] enter show ?thesis
      by simp
  qed
  then show ?case
    using RenderContainer_frame [OF enter _ exit] by simp
next
  case (3 d s ps i)
  then show ?case
    by (simp add: sameFrame_refl)
next
  case (4 d s ps i c cs)
  let ?cx = "\<lparr>parents = ps, position = i,
               nextNode = (case cs of [] \<Rightarrow> None | n # rest \<Rightarrow> Some n)\<rparr>"
  from "4.prems" obtain s1 where
    first: "Walk d s ?cx c = Inr s1" and rest: "WalkChildren d s1 ps (Suc i) cs = Inr s'"
    by (auto split: sum.splits)
  show ?case
    using "4.IH"(1) [OF first] "4.IH"(2) [OF first rest] sameFrame_trans by blast
qed

lemma NewRenderer_fresh:
  "padAccumulator (NewRenderer d lw lp opts) = []
   \<and> indent (NewRenderer d lw lp opts) = []
   \<and> inlineAccumulator (NewRenderer d lw lp opts) = []
   \<and> headingNumbering (NewRenderer d lw lp opts) = headingNumbering_zero
   \<and> blockQuoteLevel (NewRenderer d lw lp opts) = 0
   \<and> table (NewRenderer d lw lp opts) = None
   \<and> pushes (NewRenderer d lw lp opts) = 0
   \<and> pops (NewRenderer d lw lp opts) = 0
   \<and> lineWidth (NewRenderer d lw lp opts) = lw
   \<and> leftPad (NewRenderer d lw lp opts) = lp"
proof -
  have step: "padAccumulator (applyOption d opt r) = padAccumulator r
      \<and> indent (applyOption d opt r) = indent r
      \<and> inlineAccumulator (applyOption d opt r) = inlineAccumulator r
      \<and> headingNumbering (applyOption d opt r) = headingNumbering r
      \<and> blockQuoteLevel (applyOption d opt r) = blockQuoteLevel r
      \<and> table (applyOption d opt r) = table r
      \<and> pushes (applyOption d opt r) = pushes r
      \<and> pops (applyOption d opt r) = pops r
      \<and> lineWidth (applyOption d opt r) = lineWidth r
      \<and> leftPad (applyOption d opt r) = leftPad r" for opt and r :: "'a renderer"
    by (cases opt) simp_all
  have "padAccumulator (fold (applyOption d) opts r) = padAccumulator r
      \<and> indent (fold (applyOption d) opts r) = indent r
      \<and> inlineAccumulator (fold (applyOption d) opts r) = inlineAccumulator r
      \<and> headingNumbering (fold (applyOption d) opts r) = headingNumbering r
      \<and> blockQuoteLevel (fold (applyOption d) opts r) = blockQuoteLevel r
      \<and> table (fold (applyOption d) opts r) = table r
      \<and> pushes (fold (applyOption d) opts r) = pushes r
      \<and> pops (fold (applyOption d) opts r) = pops r
      \<and> lineWidth (fold (applyOption d) opts r) = lineWidth r
      \<and> leftPad (fold (applyOption d) opts r) = leftPad r" for r :: "'a renderer"
    by (induction opts arbitrary: r) (simp_all add: step)
  then show ?thesis
    by (simp add: NewRenderer_def)
qed

text \<open>
  C3: a renderer fresh from \<^verbatim>\<open>NewRenderer\<close> has an empty padding stack and block-quote
  level zero; and when the render of a document returns, as many pads were pushed as
  popped, the padding stack is empty again and the block-quote level is zero again. The
  walk enters and leaves each container once, so every tree is balanced.
\<close>

theorem padding_stack_balanced:
  "padAccumulator (NewRenderer d lw lp opts) = []
   \<and> blockQuoteLevel (NewRenderer d lw lp opts) = 0
   \<and> (Render d lw lp opts doc = Inr (out, r) \<longrightarrow>
        pushes r = pops r \<and> padAccumulator r = [] \<and> blockQuoteLevel r = 0)"
proof (intro conjI impI)
  assume "Render d lw lp opts doc = Inr (out, r)"
  then have "sameFrame (NewRenderer d lw lp opts) r"
    unfolding Render_def using Walk_frame(1) by fastforce
  then show "pushes r = pops r" and "padAccumulator r = []" and "blockQuoteLevel r = 0"
    using NewRenderer_fresh [of d lw lp opts] by (simp_all add: sameFrame_def)
qed (simp_all add: NewRenderer_fresh)

lemma quoteDoc_render:
  "(case Render plain 20 0 [] quoteDoc of Inl e \<Rightarrow> False | Inr (out, r) \<Rightarrow> pushes r = 1)"
  by code_simp

theorem padding_stack_balanced_witness:
  "\<exists>out r. Render plain 20 0 [] quoteDoc = Inr (out, r) \<and> pushes r = 1
     \<and> pushes r = pops r \<and> padAccumulator r = [] \<and> blockQuoteLevel r = 0"
proof -
  obtain out r where "Render plain 20 0 [] quoteDoc = Inr (out, r)" and "pushes r = 1"
    using quoteDoc_render by (auto split: sum.splits)
  then show ?thesis
    using padding_stack_balanced [of plain 20 0 "[]" quoteDoc out r] by blast
qed

section \<open>The cases of the walker\<close>

lemma strings_Join_empty_sep: "strings_Join xs [] = concat xs"
  by (induction xs "[] :: gostring" rule: strings_Join.induct) simp_all

lemma pad_nonneg:
  "0 \<le> leftPad r \<Longrightarrow> pad r = Inr (replicate (nat (leftPad r)) sp @ concat (padAccumulator r))"
  by (simp add: pad_def strings_Repeat_def strings_Join_empty_sep concat_replicate_single)

lemma wantsSeparation_kinds:
  "wantsSeparation n \<longleftrightarrow>
     (\<exists>cs. n = Container Paragraph cs) \<or> (\<exists>level cs. n = Container (Heading level) cs)
     \<or> (\<exists>literal. n = Leaf HorizontalRule literal) \<or> (\<exists>literal. n = Leaf CodeBlock literal)
     \<or> (\<exists>literal. n = Leaf HTMLBlock literal)"
  by (cases n rule: wantsSeparation.cases) simp_all

text \<open>
  C5: leaving a paragraph, with a left padding that is not negative, the renderer empties
  the inline accumulator, wraps its content (with the one-shot indent when it is set,
  which it then clears), writes the block and one line break, and writes one more line
  break exactly when there is a next sibling and it is a paragraph, a heading, a
  horizontal rule, a code block or an HTML block.
\<close>

theorem paragraph_exit:
  assumes "0 \<le> leftPad r"
  shows "RenderNode d w r (Container Paragraph cs) cx False =
     (let content = inlineAccumulator r;
          margin = replicate (nat (leftPad r)) sp @ concat (padAccumulator r);
          block = (if indent r \<noteq> []
                   then WrapWithPadIndent (textLib d) content (lineWidth r) (indent r) margin
                   else WrapWithPad (textLib d) content (lineWidth r) margin);
          extra = (\<exists>next. nextNode cx = Some next
                     \<and> ((\<exists>children. next = Container Paragraph children)
                        \<or> (\<exists>level children. next = Container (Heading level) children)
                        \<or> (\<exists>literal. next = Leaf HorizontalRule literal)
                        \<or> (\<exists>literal. next = Leaf CodeBlock literal)
                        \<or> (\<exists>literal. next = Leaf HTMLBlock literal)))
      in Inr (w @ block @ [nl] @ (if extra then [nl] else []),
              r\<lparr>inlineAccumulator := [], indent := []\<rparr>, GoToNext))"
proof -
  have p: "pad (r\<lparr>inlineAccumulator := []\<rparr>)
           = Inr (replicate (nat (leftPad r)) sp @ concat (padAccumulator r))"
    using assms pad_nonneg [of "r\<lparr>inlineAccumulator := []\<rparr>"] by simp
  have r: "(if indent r \<noteq> [] then r\<lparr>inlineAccumulator := [], indent := []\<rparr>
            else r\<lparr>inlineAccumulator := []\<rparr>) = r\<lparr>inlineAccumulator := [], indent := []\<rparr>"
    by simp
  show ?thesis
  proof (cases "nextNode cx")
    case None
    then show ?thesis
      using p r by (cases "indent r = []") (simp_all add: exitParagraph_def Let_def)
  next
    case (Some n)
    then show ?thesis
      using p r wantsSeparation_kinds [of n]
      by (cases "indent r = []") (simp_all add: exitParagraph_def Let_def)
  qed
qed

theorem paragraph_exit_witness:
  "0 \<le> leftPad r80
   \<and> RenderNode plain [] (r80\<lparr>inlineAccumulator := runes ''ab'', indent := runes ''* ''\<rparr>)
         (Container Paragraph [])
         \<lparr>parents = [Document], position = 0, nextNode = Some (Leaf CodeBlock [])\<rparr> False =
       Inr (runes ''* ab'' @ [nl, nl], r80, GoToNext)
   \<and> RenderNode plain [] (r80\<lparr>inlineAccumulator := runes ''ab''\<rparr>)
         (Container Paragraph [])
         \<lparr>parents = [Document], position = 0, nextNode = Some (Container List [])\<rparr> False =
       Inr (runes ''ab'' @ [nl], r80, GoToNext)
   \<and> RenderNode plain [] (r80\<lparr>inlineAccumulator := runes ''ab''\<rparr>)
         (Container Paragraph [])
         \<lparr>parents = [Document], position = 0, nextNode = None\<rparr> False =
       Inr (runes ''ab'' @ [nl], r80, GoToNext)"
proof -
  have h: "0 \<le> leftPad (r80\<lparr>inlineAccumulator := runes ''ab'', indent := runes ''* ''\<rparr>)"
    and h': "0 \<le> leftPad (r80\<lparr>inlineAccumulator := runes ''ab''\<rparr>)"
    by (simp_all add: r80_def NewRenderer_def)
  show ?thesis
    using paragraph_exit [OF h, of plain "[]" "[]"
        "\<lparr>parents = [Document], position = 0, nextNode = Some (Leaf CodeBlock [])\<rparr>"]
      paragraph_exit [OF h', of plain "[]" "[]"
        "\<lparr>parents = [Document], position = 0, nextNode = Some (Container List [])\<rparr>"]
      paragraph_exit [OF h', of plain "[]" "[]"
        "\<lparr>parents = [Document], position = 0, nextNode = None\<rparr>"]
    by (simp add: r80_def NewRenderer_def plain_def plainText_def runes_def nl_def Let_def)
qed

lemma Itoa_digit: "0 \<le> c \<Longrightarrow> c < 10 \<Longrightarrow> Itoa c = [48 + nat c]"
  by (simp add: Itoa_def digitsOf.simps)

text \<open>
  C4: from all counters zero, observing the levels 1, 2, 2, 1, 3 gives the labels
  1, 1.1, 1.2, 2 and 2.1 in that order; observing a level from 1 to 6 increments its
  counter, zeroes the deeper ones and leaves the shallower ones; rendering any counters
  formats those that are not zero, in order, in decimal, joined by a dot.
\<close>

theorem heading_numbering_labels:
  "observeAll headingNumbering_zero [1, 2, 2, 1, 3] =
     Some [runes ''1'', runes ''1.1'', runes ''1.2'', runes ''2'', runes ''2.1'']
   \<and> (length hn = 6 \<and> 1 \<le> level \<and> level \<le> 6 \<longrightarrow>
        (\<exists>hn'. headingNumbering_Observe hn level = Some hn' \<and> length hn' = 6
           \<and> hn' ! (nat level - 1) = hn ! (nat level - 1) + 1
           \<and> (\<forall>j. nat level \<le> j \<and> j < 6 \<longrightarrow> hn' ! j = 0)
           \<and> (\<forall>j. j < nat level - 1 \<longrightarrow> hn' ! j = hn ! j)))
   \<and> headingNumbering_Render counters =
       strings_Join (map Itoa (filter (\<lambda>c. c \<noteq> 0) counters)) [46]
   \<and> (0 \<le> c \<and> c < 10 \<longrightarrow> Itoa c = [48 + nat c])"
proof (intro conjI impI)
  show "observeAll headingNumbering_zero [1, 2, 2, 1, 3] =
     Some [runes ''1'', runes ''1.1'', runes ''1.2'', runes ''2'', runes ''2.1'']"
    by code_simp
  show "headingNumbering_Render counters =
       strings_Join (map Itoa (filter (\<lambda>c. c \<noteq> 0) counters)) [46]"
    by (simp add: headingNumbering_Render_def runes_def)
next
  assume "0 \<le> c \<and> c < 10"
  then show "Itoa c = [48 + nat c]"
    by (simp add: Itoa_digit)
next
  assume a: "length hn = 6 \<and> 1 \<le> level \<and> level \<le> 6"
  define i where "i = nat level - 1"
  define hn' where "hn' = take i hn @ [hn ! i + 1] @ replicate (length hn - i - 1) 0"
  have i: "i < 6" "nat level = Suc i" "length hn = 6"
    using a by (auto simp: i_def)
  have "\<not> (level < 1 \<or> int (length hn) < level)"
    using a by simp
  then have "headingNumbering_Observe hn level = Some hn'"
    by (simp only: headingNumbering_Observe_def Let_def hn'_def i_def if_False)
  moreover have "length hn' = 6"
    using i by (simp add: hn'_def)
  moreover have "hn' ! i = hn ! i + 1"
    using i by (simp add: hn'_def nth_append)
  moreover have "\<forall>j. nat level \<le> j \<and> j < 6 \<longrightarrow> hn' ! j = 0"
    using i by (auto simp: hn'_def nth_append nth_Cons')
  moreover have "\<forall>j. j < i \<longrightarrow> hn' ! j = hn ! j"
    using i by (auto simp: hn'_def nth_append)
  ultimately show "\<exists>hn'. headingNumbering_Observe hn level = Some hn' \<and> length hn' = 6
           \<and> hn' ! (nat level - 1) = hn ! (nat level - 1) + 1
           \<and> (\<forall>j. nat level \<le> j \<and> j < 6 \<longrightarrow> hn' ! j = 0)
           \<and> (\<forall>j. j < nat level - 1 \<longrightarrow> hn' ! j = hn ! j)"
    unfolding i_def by blast
qed

theorem heading_numbering_labels_witness:
  "headingNumbering_Observe [1, 2, 3, 4, 5, 6] 3 = Some [1, 2, 4, 0, 0, 0]
   \<and> headingNumbering_Render [1, 2, 4, 0, 0, 0] = runes ''1.2.4''
   \<and> headingNumbering_Render [3, 0, 0, 7, 0, 9] = runes ''3.7.9''"
proof -
  have "length [1, 2, 3, 4, 5, 6 :: int] = 6 \<and> (1::int) \<le> 3 \<and> (3::int) \<le> 6"
    by simp
  with heading_numbering_labels [of "[1, 2, 3, 4, 5, 6]" 3]
  obtain hn' where h: "headingNumbering_Observe [1, 2, 3, 4, 5, 6] 3 = Some hn'"
    by blast
  then have "headingNumbering_Observe [1, 2, 3, 4, 5, 6] 3 = Some [1, 2, 4, 0, 0, 0]"
    by (simp add: headingNumbering_Observe_def Let_def)
  moreover have "headingNumbering_Render [1, 2, 4, 0, 0, 0] = runes ''1.2.4''"
    using heading_numbering_labels [where counters = "[1, 2, 4, 0, 0, 0]" and c = 1]
      heading_numbering_labels [where c = 2] heading_numbering_labels [where c = 4]
    by (simp add: runes_def)
  moreover have "headingNumbering_Render [3, 0, 0, 7, 0, 9] = runes ''3.7.9''"
    using heading_numbering_labels [where counters = "[3, 0, 0, 7, 0, 9]" and c = 3]
      heading_numbering_labels [where c = 7] heading_numbering_labels [where c = 9]
    by (simp add: runes_def)
  ultimately show ?thesis
    by simp
qed

text \<open>
  C6: leaving a strong span, the renderer appends to the accumulated text the full
  reset, then the format string of the escape state witnessed on the accumulated text
  with its bold attribute cleared; it writes no other code and nothing to the sink.
\<close>

theorem strong_exit_resets_and_reapplies:
  "RenderNode d w r (Container Strong cs) cx False =
     Inr (w,
          r\<lparr>inlineAccumulator := inlineAccumulator r @ resetAll (styleLib d)
              @ FormatString (textLib d)
                  ((Witness (textLib d) \<lparr>Bold = False, others = zeroOthers (textLib d)\<rparr>
                      (inlineAccumulator r))\<lparr>Bold := False\<rparr>)\<rparr>,
          GoToNext)"
  by (simp add: exitStrong_def writeInline_def Let_def)

text \<open>
  C7, amended: entering an image never panics, whatever the destination: the renderer
  appends \<^verbatim>\<open>![alt](destination)\<close> and a line break, where the alt text is the literal
  of the image's only child when that is a text node and empty otherwise, alt text and
  destination have their line breaks removed and the whitespace around them trimmed,
  and the destination is styled blue; it skips the children, and the walk of the image
  returns. \<^verbatim>\<open>renderImage\<close> fetches nothing, so this is the case of every image.
\<close>

theorem image_falls_back_to_text:
  "RenderNode d w r (Container (Image destination) cs) cx True =
     Inr (w,
          r\<lparr>inlineAccumulator := inlineAccumulator r @ runes ''!['' 
              @ TrimSpace (removeNewlines (case cs of [Leaf Text literal] \<Rightarrow> literal | _ \<Rightarrow> []))
              @ runes '']('' @ Blue (styleLib d) (TrimSpace (removeNewlines destination))
              @ runes '')'' @ [nl]\<rparr>,
          SkipChildren)
   \<and> Walk d (w, r) cx (Container (Image destination) cs) =
     Inr (w,
          r\<lparr>inlineAccumulator := inlineAccumulator r @ runes ''!['' 
              @ TrimSpace (removeNewlines (case cs of [Leaf Text literal] \<Rightarrow> literal | _ \<Rightarrow> []))
              @ runes '']('' @ Blue (styleLib d) (TrimSpace (removeNewlines destination))
              @ runes '')'' @ [nl]\<rparr>)"
  by (simp add: enterImage_def renderImage_def writeInline_def Let_def)

text \<open>
  Against C7 as it is worded: for an image with alt text t and destination d the text
  appended is \<^verbatim>\<open>![t](d)\<close> and a line break, not \<^verbatim>\<open>[t](d)\<close>.
\<close>

theorem image_text_not_as_worded:
  "RenderNode plain [] r80 (Container (Image (runes ''d'')) [Leaf Text (runes ''t'')])
     (underParagraphIn Document) True =
     Inr ([], r80\<lparr>inlineAccumulator := runes ''![t](d)'' @ [nl]\<rparr>, SkipChildren)
   \<and> runes ''![t](d)'' @ [nl] \<noteq> runes ''[t](d)''"
  by (simp add: enterImage_def renderImage_def writeInline_def Let_def plain_def
      plainStyles_def runes_def TrimSpace_def removeNewlines_def TrimFunc_def
      TrimRightFunc_def TrimLeftFunc_def IsSpace_def nl_def r80_def NewRenderer_def)

text \<open>
  C9: leaving a body cell, the alignment of the cell plays no part: the table builder
  gets the cell's content with the copy-header sentinel. Leaving a header cell, it
  gets the alignment of the cell (right, centre, or else left).
\<close>

theorem body_cell_copies_header_alignment:
  "RenderNode d w r (Container (TableCell align False) cs) cx False
     = RenderNode d w r (Container (TableCell align' False) cs) cx False
   \<and> (table r = Some t \<longrightarrow>
        RenderNode d w r (Container (TableCell align False) cs) cx False =
          Inr (w, r\<lparr>inlineAccumulator := [],
                   table := Some (AddBodyCell (tableLib d) t (inlineAccumulator r)
                                    CellAlignCopyHeader)\<rparr>, GoToNext)
        \<and> RenderNode d w r (Container (TableCell align True) cs) cx False =
          Inr (w, r\<lparr>inlineAccumulator := [],
                   table := Some (AddHeaderCell (tableLib d) t (inlineAccumulator r)
                                    (if align = TableAlignmentRight then CellAlignRight
                                     else if align = TableAlignmentCenter then CellAlignCenter
                                     else CellAlignLeft))\<rparr>, GoToNext))"
  by (auto simp: exitTableCell_def Let_def split: option.splits)

theorem body_cell_copies_header_alignment_witness:
  "RenderNode plain [] (r80\<lparr>inlineAccumulator := runes ''x'', table := Some ([runes ''h''], [])\<rparr>)
     (Container (TableCell TableAlignmentRight False) []) (underParagraphIn Table) False =
   Inr ([], r80\<lparr>inlineAccumulator := [],
              table := Some (AddBodyCell plainTables ([runes ''h''], []) (runes ''x'')
                               CellAlignCopyHeader)\<rparr>, GoToNext)"
  using body_cell_copies_header_alignment [where r = "r80\<lparr>inlineAccumulator := runes ''x'', table := Some ([runes ''h''], [])\<rparr>"
      and t = "([runes ''h''], [])" and d = plain and w = "[]" and align = TableAlignmentRight
      and cs = "[]" and cx = "underParagraphIn Table"]
  by (simp add: plain_def)

text \<open>
  C10: entering a link whose first child is a leaf, the label is the literal of that
  leaf, the other children play no part, and the walk of the link visits none of the
  children. Entering a link with no child, or whose first child is a container, is a
  nil dereference, and so is its walk.
\<close>

theorem link_label_from_first_child:
  "(cs = Leaf k literal # rest \<longrightarrow>
      RenderNode d w r (Container (Link destination title) cs) cx True =
        Inr (w, r\<lparr>inlineAccumulator := inlineAccumulator r @ runes ''['' @ literal
                     @ runes '']('' @ Blue (styleLib d) destination
                     @ (if title \<noteq> [] then [sp] @ title else []) @ runes '')''\<rparr>,
             SkipChildren)
      \<and> Walk d (w, r) cx (Container (Link destination title) cs) =
        Inr (w, r\<lparr>inlineAccumulator := inlineAccumulator r @ runes ''['' @ literal
                     @ runes '']('' @ Blue (styleLib d) destination
                     @ (if title \<noteq> [] then [sp] @ title else []) @ runes '')''\<rparr>))
   \<and> (cs = [] \<or> cs = Container k' cs' # rest \<longrightarrow>
      RenderNode d w r (Container (Link destination title) cs) cx True = Inl NilDereference
      \<and> Walk d (w, r) cx (Container (Link destination title) cs) = Inl NilDereference)"
  by (auto simp: enterLink_def writeInline_def Let_def)

theorem link_label_from_first_child_witness:
  "Walk plain ([], r80) (underParagraphIn Document)
     (Container (Link (runes ''u'') []) [Leaf Text (runes ''a''), Leaf OtherLeaf []]) =
     Inr ([], r80\<lparr>inlineAccumulator := runes ''[a](u)''\<rparr>)
   \<and> Walk plain ([], r80) (underParagraphIn Document)
     (Container (Link (runes ''u'') []) [Container (Image (runes ''i'')) []]) =
     Inl NilDereference"
  using link_label_from_first_child [where cs = "[Leaf Text (runes ''a''), Leaf OtherLeaf []]" and k = Text
      and literal = "runes ''a''" and rest = "[Leaf OtherLeaf []]" and d = plain and w = "[]"
      and r = r80 and destination = "runes ''u''" and title = "[]"
      and cx = "underParagraphIn Document"]
    link_label_from_first_child [where cs = "[Container (Image (runes ''i'')) []]" and k' = "Image (runes ''i'')"
      and cs' = "[]" and rest = "[]" and d = plain and w = "[]"
      and r = r80 and destination = "runes ''u''" and title = "[]"
      and cx = "underParagraphIn Document"]
  by (simp add: plain_def plainStyles_def r80_def NewRenderer_def runes_def)

end
